theory Spec2Isabelle
  imports Complex_Main "HOL-Library.Log_Nat"
begin

section \<open>Data model of the poker agent\<close>

text \<open>
  The agent is a TypeScript program. A \<open>number\<close> is an IEEE 754 double: it is modelled
  by the real it denotes, and the arithmetic of the decision path rounds every result to
  the nearest double (section Numbers). Counters that are only ever incremented from zero
  are \<open>nat\<close>, strings are \<open>string\<close>, \<open>Record<string, Player>\<close> is a map, and
  \<open>string | null\<close> an option.
\<close>

datatype Status = WAITING | PREFLOP | FLOP | TURN | RIVER | SHOWDOWN

datatype Action = FOLD | CHECK | CALL | RAISE | ALL_IN

record StrategyConfig =
  raiseThreshold :: real
  callThreshold :: real
  foldThreshold :: real
  bluffProbability :: real
  aggressiveness :: real

record Stats =
  wins :: nat
  losses :: nat
  totalHands :: nat
  successfulBluffs :: nat
  failedBluffs :: nat

record StrategyEngine =
  config :: StrategyConfig
  stats :: Stats

record Decision =
  action :: Action
  amount :: "real option"

section \<open>Numbers\<close>

text \<open>
  \<open>double x\<close> is the double nearest to the real \<open>x\<close>, ties going to the even significand
  (the rounding of every JavaScript operation and decimal literal): \<open>x\<close> is scaled so that
  its significand has 53 bits, or to the subnormal spacing \<open>2^-1074\<close> below \<open>2^-1022\<close>,
  and rounded there. Magnitudes beyond the double range, \<open>NaN\<close> and the sign of zero are not
  modelled.
\<close>

definition roundEven :: "real \<Rightarrow> int" where
  "roundEven y =
     (let f = \<lfloor>y\<rfloor>; r = y - of_int f
      in if r < 1 / 2 then f else if r > 1 / 2 then f + 1 else if even f then f else f + 1)"

definition pow2 :: "int \<Rightarrow> real" where
  "pow2 e = (if 0 \<le> e then 2 ^ nat e else 1 / 2 ^ nat (- e))"

text \<open>For \<open>x > 0\<close>, the \<open>e\<close> with \<open>2^e \<le> x < 2^(e+1)\<close>.\<close>

definition exponent :: "real \<Rightarrow> int" where
  "exponent x = (if 1 \<le> x then bitlen \<lfloor>x\<rfloor> - 1 else - bitlen (\<lceil>1 / x\<rceil> - 1))"

definition double :: "real \<Rightarrow> real" where
  "double x =
     (if x = 0 then 0
      else let s = pow2 (max (exponent \<bar>x\<bar>) (- 1022) - 52)
           in sgn x * of_int (roundEven (\<bar>x\<bar> / s)) * s)"

text \<open>The operators \<open>+\<close>, \<open>-\<close> and \<open>*\<close> on numbers.\<close>

definition fadd :: "real \<Rightarrow> real \<Rightarrow> real" where
  "fadd x y = double (x + y)"

definition fsub :: "real \<Rightarrow> real \<Rightarrow> real" where
  "fsub x y = double (x - y)"

definition fmul :: "real \<Rightarrow> real \<Rightarrow> real" where
  "fmul x y = double (x * y)"

text \<open>
  \<open>x + k\<close> for a number \<open>x\<close> and a whole number \<open>k\<close>: the rounded sum. The program
  holds doubles only; for a real that is not a double, on which it cannot run, the sum is
  left as it is, so that statements can be made for all reals.
\<close>

definition plusWhole :: "real \<Rightarrow> int \<Rightarrow> real" where
  "plusWhole x k = (if double x = x then fadd x (of_int k) else x + of_int k)"

section \<open>StrategyEngine\<close>

definition getDefaultStrategy :: StrategyConfig where
  "getDefaultStrategy =
     \<lparr>raiseThreshold = double 0.6, callThreshold = double 0.4, foldThreshold = double 0.3,
      bluffProbability = double 0.15, aggressiveness = 0.5\<rparr>"

definition newStrategyEngine :: StrategyEngine where
  "newStrategyEngine =
     \<lparr>config = getDefaultStrategy,
      stats = \<lparr>wins = 0, losses = 0, totalHands = 0,
               successfulBluffs = 0, failedBluffs = 0\<rparr>\<rparr>"

text \<open>
  \<open>calculateRaiseAmount(pot, chips, handStrength, currentBet)\<close>: the third parameter is
  whatever strength the caller passes. \<open>Math.floor\<close> is applied to the rounded products,
  so that 90 chips cap the raise at 62 (\<open>90 * 0.7\<close> is \<open>62.99999999999999\<close>).
\<close>

definition calculateRaiseAmount :: "StrategyConfig \<Rightarrow> real \<Rightarrow> real \<Rightarrow> real \<Rightarrow> real \<Rightarrow> real" where
  "calculateRaiseAmount cfg pot chips handStrength currentBet =
     (let baseBet = fmul pot 0.5;
          aggressiveMultiplier = fadd 1 (fmul (aggressiveness cfg) handStrength);
          raiseAmount = fmul baseBet aggressiveMultiplier;
          maxBet = \<lfloor>fmul chips (double 0.7)\<rfloor>;
          totalBet = plusWhole currentBet (min \<lfloor>raiseAmount\<rfloor> maxBet)
      in totalBet)"

text \<open>
  The two local constants of \<open>decide\<close> that depend on the random draw. \<open>draw\<close> is the
  value returned by \<open>Math.random()\<close> for this decision.
\<close>

definition shouldBluff :: "StrategyConfig \<Rightarrow> real \<Rightarrow> bool" where
  "shouldBluff cfg draw = (draw < bluffProbability cfg)"

definition effectiveStrength :: "StrategyConfig \<Rightarrow> real \<Rightarrow> real \<Rightarrow> real" where
  "effectiveStrength cfg draw handStrength =
     (if shouldBluff cfg draw then min (fadd handStrength (double 0.3)) 1.0
      else handStrength)"

text \<open>
  The one division of \<open>decide\<close> has a positive numerator; where its denominator is zero
  JavaScript yields \<open>Infinity\<close>, which is below no bound.
\<close>

datatype Quotient = Finite real | Infinity

definition quotient :: "real \<Rightarrow> real \<Rightarrow> Quotient" where
  "quotient x y = (if y = 0 then Infinity else Finite (double (x / y)))"

fun below :: "Quotient \<Rightarrow> real \<Rightarrow> bool" where
  "below (Finite x) bound = (x < bound)"
| "below Infinity bound = False"

definition potOdds :: "real \<Rightarrow> real \<Rightarrow> Quotient" where
  "potOdds callAmount pot =
     (if callAmount > 0 then quotient callAmount (fadd pot callAmount) else Finite 0)"

definition decide ::
  "StrategyConfig \<Rightarrow> real \<Rightarrow> real \<Rightarrow> real \<Rightarrow> real \<Rightarrow> real \<Rightarrow> real \<Rightarrow> Status \<Rightarrow> Decision" where
  "decide cfg draw handStrength callAmount pot chips currentBet phase =
     (let odds = potOdds callAmount pot;
          eff = effectiveStrength cfg draw handStrength
      in if callAmount = 0 then
           (if eff \<ge> raiseThreshold cfg
            then \<lparr>action = RAISE,
                  amount = Some (calculateRaiseAmount cfg pot chips eff currentBet)\<rparr>
            else \<lparr>action = CHECK, amount = None\<rparr>)
         else if eff \<ge> raiseThreshold cfg then
           (if callAmount < fmul chips 0.5
            then \<lparr>action = RAISE,
                  amount = Some (calculateRaiseAmount cfg pot chips eff currentBet)\<rparr>
            else \<lparr>action = CALL, amount = None\<rparr>)
         else if eff \<ge> callThreshold cfg then
           (if below odds (double 0.4) \<or> callAmount < fmul chips (double 0.2)
            then \<lparr>action = CALL, amount = None\<rparr>
            else \<lparr>action = FOLD, amount = None\<rparr>)
         else if eff \<ge> foldThreshold cfg then
           (if below odds (double 0.2) \<and> callAmount < fmul chips (double 0.1)
            then \<lparr>action = CALL, amount = None\<rparr>
            else \<lparr>action = FOLD, amount = None\<rparr>)
         else \<lparr>action = FOLD, amount = None\<rparr>)"

text \<open>
  \<open>adaptStrategy\<close> and \<open>recordResult\<close> mutate the engine in place; here they return the
  updated engine. The call to \<open>adaptStrategy\<close> inside \<open>recordResult\<close> is commented out in
  the source, so \<open>recordResult\<close> only touches the counters, and no decision of the agent
  is taken under an adapted configuration. The steps and clamps of \<open>adaptStrategy\<close> are
  written over the reals, without the rounding of their last bits.
\<close>

definition winRate :: "Stats \<Rightarrow> real" where
  "winRate st = (if totalHands st > 0 then real (wins st) / real (totalHands st) else 0.5)"

definition adaptStrategy :: "StrategyEngine \<Rightarrow> StrategyEngine" where
  "adaptStrategy e =
     (let cfg = config e in
      if winRate (stats e) < 0.3 then
        e\<lparr>config := cfg\<lparr>raiseThreshold := min (raiseThreshold cfg + 0.05) 0.8,
                          foldThreshold := min (foldThreshold cfg + 0.05) 0.5,
                          bluffProbability := max (bluffProbability cfg - 0.05) 0.05\<rparr>\<rparr>
      else if winRate (stats e) > 0.7 then
        e\<lparr>config := cfg\<lparr>raiseThreshold := max (raiseThreshold cfg - 0.05) 0.4,
                          aggressiveness := min (aggressiveness cfg + 0.1) 1.0\<rparr>\<rparr>
      else e)"

definition recordResult :: "bool \<Rightarrow> StrategyEngine \<Rightarrow> StrategyEngine" where
  "recordResult won e =
     (let st = (stats e)\<lparr>totalHands := totalHands (stats e) + 1\<rparr>
      in if won then e\<lparr>stats := st\<lparr>wins := wins st + 1\<rparr>\<rparr>
         else e\<lparr>stats := st\<lparr>losses := losses st + 1\<rparr>\<rparr>)"

text \<open>Calls made on one engine over its lifetime, in order.\<close>

datatype EngineCall = CallRecordResult bool | CallAdaptStrategy

fun engineCall :: "EngineCall \<Rightarrow> StrategyEngine \<Rightarrow> StrategyEngine" where
  "engineCall (CallRecordResult won) e = recordResult won e"
| "engineCall CallAdaptStrategy e = adaptStrategy e"

fun engineCalls :: "EngineCall list \<Rightarrow> StrategyEngine \<Rightarrow> StrategyEngine" where
  "engineCalls [] e = e"
| "engineCalls (c # cs) e = engineCalls cs (engineCall c e)"


section \<open>HandEvaluator\<close>

definition normalizeRank :: "string \<Rightarrow> int" where
  "normalizeRank rank =
     (if rank = ''2'' then 2 else if rank = ''3'' then 3 else if rank = ''4'' then 4
      else if rank = ''5'' then 5 else if rank = ''6'' then 6 else if rank = ''7'' then 7
      else if rank = ''8'' then 8 else if rank = ''9'' then 9 else if rank = ''10'' then 10
      else if rank = ''J'' then 11 else if rank = ''Q'' then 12 else if rank = ''K'' then 13
      else if rank = ''A'' then 14 else 0)"

text \<open>\<open>xs[i]\<close> of JavaScript: \<open>undefined\<close> (here \<open>None\<close>) outside the array.\<close>

definition elemAt :: "'a list \<Rightarrow> nat \<Rightarrow> 'a option" where
  "elemAt xs i = (if i < length xs then Some (xs ! i) else None)"

text \<open>\<open>xs.slice(i, j)\<close> for \<open>0 \<le> i \<le> j\<close>.\<close>

definition slice :: "'a list \<Rightarrow> nat \<Rightarrow> nat \<Rightarrow> 'a list" where
  "slice xs i j = take (j - i) (drop i xs)"

text \<open>
  \<open>Math.max(...xs)\<close>. Every call below is on a non-empty array (at least two visible
  cards); the first equation is never reached from \<open>evaluate\<close>.
\<close>

fun maxOf :: "int list \<Rightarrow> int" where
  "maxOf [] = 0"
| "maxOf [x] = x"
| "maxOf (x # y # ys) = max x (maxOf (y # ys))"

text \<open>
  \<open>checkStraightDraw\<close>: the \<open>for\<close> loop returns true at the first index \<open>i\<close> in
  \<open>0 .. length - 4\<close> whose slice passes the test; then the wheel test.
\<close>

definition windowHit :: "int list \<Rightarrow> nat \<Rightarrow> bool" where
  "windowHit sortedRanks i =
     (let sl = slice sortedRanks i (i + 5)
      in length sl \<ge> 4 \<and> hd sl - last sl \<le> 4)"

definition checkStraightDraw :: "int list \<Rightarrow> bool" where
  "checkStraightDraw sortedRanks =
     (if length sortedRanks < 4 then False
      else if list_ex (windowHit sortedRanks) [0 ..< length sortedRanks - 3] then True
      else if 14 \<in> set sortedRanks \<and> 2 \<in> set sortedRanks then True
      else False)"

definition evaluate :: "string list \<Rightarrow> string list \<Rightarrow> real" where
  "evaluate holeCards communityCards =
     (let cards = filter (\<lambda>c. c \<noteq> ''??'') (holeCards @ communityCards) in
      if length cards < 2 then double 0.3
      else
        let ranks = map (\<lambda>c. normalizeRank (butlast c)) cards;
            suits = map (\<lambda>c. drop (length c - 1) c) cards;
            rankKeys = sort (remdups ranks);
            counts = rev (sort (map (count_list ranks) rankKeys));
            maxSuit = maxOf (map (\<lambda>s. int (count_list suits s)) (remdups suits));
            sortedRanks = rev (sort (remdups ranks));
            hasStraightDraw = checkStraightDraw sortedRanks;
            strength =
              (if elemAt counts 0 = Some 4 then double 0.95
               else if elemAt counts 0 = Some 3 \<and> elemAt counts 1 = Some 2 then double 0.9
               else if maxSuit \<ge> 5 then double 0.85
               else if hasStraightDraw \<and> length sortedRanks \<ge> 5 then double 0.8
               else if elemAt counts 0 = Some 3 then double 0.7
               else if elemAt counts 0 = Some 2 \<and> elemAt counts 1 = Some 2 then double 0.6
               else if elemAt counts 0 = Some 2 then
                 (let pairRank = (case find (\<lambda>k. count_list ranks k = 2) rankKeys of
                                    Some k \<Rightarrow> k | None \<Rightarrow> 0)
                  in if pairRank \<ge> 10 then double 0.55 else double 0.45)
               else
                 (let highCard = maxOf ranks
                  in if highCard \<ge> 12 then double 0.4 else double 0.3));
            strength1 = (if maxSuit = 4 then fadd strength (double 0.15) else strength);
            strength2 = (if hasStraightDraw then fadd strength1 (double 0.1) else strength1)
        in min strength2 1.0)"

section \<open>Snapshot of the shared game state\<close>

record Player =
  account :: string
  chips :: real
  bet :: real
  totalBet :: real
  holeCards :: "string list"
  folded :: bool
  allIn :: bool
  role :: string
  active :: bool
  disconnected :: bool
  ready :: bool

record PublicState =
  status :: Status
  players :: "string \<rightharpoonup> Player"
  seats :: "string list"
  dealerIndex :: int
  currentTurn :: int
  pot :: real
  communityCards :: "string list"
  currentBet :: real
  minRaise :: real
  actionLog :: "string list"
  winnerInfo :: "string option"
  myAccount :: string

section \<open>PokerAgent\<close>

text \<open>
  The agent's mutable fields that the polling loop reads or writes. Every
  \<open>await this.server.remoteFunction(...)\<close> either resolves (\<open>Inr\<close>) or rejects (\<open>Inl\<close>);
  the replies the server gives during one tick, together with the value of
  \<open>Math.random()\<close>, are the tick's environment.
\<close>

record PokerAgent =
  strategy :: StrategyEngine
  currentState :: "PublicState option"

datatype Error = RemoteError

record TickEnv =
  getPublicStateReply :: "Error + PublicState"
  toggleReadyReply :: "Error + unit"
  getPublicStateReply2 :: "Error + PublicState"
  actionReply :: "Error + unit"
  random :: real

text \<open>What a tick did, in order: calls into the engine and evaluator, and remote commands.\<close>

datatype Event =
    RecordResult bool
  | ToggleReady
  | Evaluate
  | Decide
  | Submit Action "real option"

record TickResult =
  agentAfter :: PokerAgent
  trace :: "Event list"
  thrown :: "Error option"

definition newPokerAgent :: PokerAgent where
  "newPokerAgent = \<lparr>strategy = newStrategyEngine, currentState = None\<rparr>"

text \<open>\<open>updateState\<close>: the rejection is caught and the field keeps its old value.\<close>

definition updateState :: "Error + PublicState \<Rightarrow> PokerAgent \<Rightarrow> PokerAgent" where
  "updateState reply a =
     (case reply of Inr s \<Rightarrow> a\<lparr>currentState := Some s\<rparr> | Inl e \<Rightarrow> a)"

text \<open>\<open>makeAction\<close>: the rejection is caught and logged.\<close>

definition makeAction :: "Error + unit \<Rightarrow> Action \<Rightarrow> real option \<Rightarrow> Event list \<times> Error option" where
  "makeAction reply type amt =
     (case reply of Inr u \<Rightarrow> ([Submit type amt], None) | Inl e \<Rightarrow> ([Submit type amt], None))"

text \<open>\<open>toggleReady\<close>: no \<open>try\<close>; a rejection leaves the method as an exception.\<close>

definition toggleReady :: "Error + unit \<Rightarrow> Event list \<times> Error option" where
  "toggleReady reply =
     (case reply of Inr u \<Rightarrow> ([ToggleReady], None) | Inl e \<Rightarrow> ([ToggleReady], Some e))"

text \<open>\<open>s.includes(t)\<close> on strings.\<close>

fun startsWith :: "string \<Rightarrow> string \<Rightarrow> bool" where
  "startsWith s [] = True"
| "startsWith [] (c # t) = False"
| "startsWith (d # s) (c # t) = (d = c \<and> startsWith s t)"

fun strIncludes :: "string \<Rightarrow> string \<Rightarrow> bool" where
  "strIncludes [] t = (t = [])"
| "strIncludes (d # s) t = (startsWith (d # s) t \<or> strIncludes s t)"

text \<open>Truthiness of a \<open>string | null\<close> and of an optional number.\<close>

definition truthyString :: "string option \<Rightarrow> bool" where
  "truthyString w = (case w of None \<Rightarrow> False | Some s \<Rightarrow> s \<noteq> [])"

definition truthyNumber :: "real option \<Rightarrow> bool" where
  "truthyNumber x = (case x of None \<Rightarrow> False | Some v \<Rightarrow> v \<noteq> 0)"

text \<open>
  \<open>seats[currentTurn]\<close>. In \<open>autonomousDecision\<close> below, the difference
  \<open>currentBet - me.bet\<close> of two doubles is zero exactly when they are equal, so the test
  of the hidden-card branch is written on the exact difference.
\<close>

definition seatAt :: "string list \<Rightarrow> int \<Rightarrow> string option" where
  "seatAt ss i = (if 0 \<le> i \<and> i < int (length ss) then Some (ss ! nat i) else None)"

definition autonomousDecision :: "PokerAgent \<Rightarrow> TickEnv \<Rightarrow> Event list \<times> Error option" where
  "autonomousDecision a env =
     (case currentState a of
        None \<Rightarrow> ([], None)
      | Some s \<Rightarrow>
          if seatAt (seats s) (currentTurn s) \<noteq> Some (myAccount s) then ([], None)
          else
            (case players s (myAccount s) of
               None \<Rightarrow> ([], None)
             | Some me \<Rightarrow>
                 if folded me \<or> allIn me then ([], None)
                 else if list_ex (\<lambda>card. card = ''??'') (holeCards me) then
                   (let callAmount = currentBet s - bet me
                    in makeAction (actionReply env) (if callAmount = 0 then CHECK else FOLD) None)
                 else
                   (let handStrength = evaluate (holeCards me) (communityCards s);
                        callAmount = fsub (currentBet s) (bet me);
                        decision = decide (config (strategy a)) (random env) handStrength
                                     callAmount (pot s) (chips me) (currentBet s) (status s);
                        sent = (if action decision = RAISE \<and> truthyNumber (amount decision)
                                then makeAction (actionReply env) RAISE (amount decision)
                                else makeAction (actionReply env) (action decision) None)
                    in ([Evaluate, Decide] @ fst sent, snd sent))))"

text \<open>
  The auto-ready block of the timer callback, entered when the status is \<open>WAITING\<close> or
  \<open>SHOWDOWN\<close>.
\<close>

definition autoReady :: "PokerAgent \<Rightarrow> PublicState \<Rightarrow> TickEnv \<Rightarrow> TickResult" where
  "autoReady a s env =
     (let isShowdown = (status s = SHOWDOWN \<and> truthyString (winnerInfo s));
          won = (case winnerInfo s of Some w \<Rightarrow> strIncludes w (myAccount s) | None \<Rightarrow> False);
          a1 = (if isShowdown then a\<lparr>strategy := recordResult won (strategy a)\<rparr> else a);
          ev1 = (if isShowdown then [RecordResult won] else [])
      in (case players s (myAccount s) of
            None \<Rightarrow> \<lparr>agentAfter = a1, trace = ev1, thrown = None\<rparr>
          | Some me \<Rightarrow>
              (if ready me then \<lparr>agentAfter = a1, trace = ev1, thrown = None\<rparr>
               else
                 (case toggleReady (toggleReadyReply env) of
                    (ev2, Some e) \<Rightarrow> \<lparr>agentAfter = a1, trace = ev1 @ ev2, thrown = Some e\<rparr>
                  | (ev2, None) \<Rightarrow>
                      \<lparr>agentAfter = updateState (getPublicStateReply2 env) a1,
                       trace = ev1 @ ev2, thrown = None\<rparr>))))"

text \<open>
  One invocation of the \<open>setInterval\<close> callback. \<open>status\<close> is read once, from the snapshot
  held after the first \<open>updateState\<close>; \<open>autonomousDecision\<close> reads the field again.
\<close>

definition tick :: "PokerAgent \<Rightarrow> TickEnv \<Rightarrow> TickResult" where
  "tick a env =
     (let a1 = updateState (getPublicStateReply env) a in
      (case currentState a1 of
         None \<Rightarrow> \<lparr>agentAfter = a1, trace = [], thrown = None\<rparr>
       | Some s \<Rightarrow>
           (let r1 = (if status s = WAITING \<or> status s = SHOWDOWN then autoReady a1 s env
                      else \<lparr>agentAfter = a1, trace = [], thrown = None\<rparr>)
            in (case thrown r1 of
                  Some e \<Rightarrow> r1
                | None \<Rightarrow>
                    (if status s \<noteq> WAITING \<and> status s \<noteq> SHOWDOWN then
                       (let d = autonomousDecision (agentAfter r1) env
                        in \<lparr>agentAfter = agentAfter r1, trace = trace r1 @ fst d,
                            thrown = snd d\<rparr>)
                     else r1)))))"

text \<open>The timer fires the callback once per interval; the agent carries over.\<close>

fun poll :: "PokerAgent \<Rightarrow> TickEnv list \<Rightarrow> PokerAgent" where
  "poll a [] = a"
| "poll a (env # envs) = poll (agentAfter (tick a env)) envs"

text \<open>A tick whose fetch succeeds with a SHOWDOWN snapshot that carries winner information.\<close>

definition observesShowdown :: "TickEnv \<Rightarrow> bool" where
  "observesShowdown env =
     (case getPublicStateReply env of
        Inr s \<Rightarrow> status s = SHOWDOWN \<and> truthyString (winnerInfo s)
      | Inl e \<Rightarrow> False)"

section \<open>The specification's formulas, for comparison\<close>

text \<open>
  The total target bet as the specification words it, with the strength left as a
  parameter: \<open>currentBet + min(floor(0.5 * pot * (1 + aggressiveness * strength)),
  floor(0.7 * chips))\<close>, each product and sum being one of doubles.
\<close>

definition specRaiseTotal :: "StrategyConfig \<Rightarrow> real \<Rightarrow> real \<Rightarrow> real \<Rightarrow> real \<Rightarrow> real" where
  "specRaiseTotal cfg strength p c cb =
     plusWhole cb
       (min \<lfloor>fmul (fmul 0.5 p) (fadd 1 (fmul (aggressiveness cfg) strength))\<rfloor>
            \<lfloor>fmul (double 0.7) c\<rfloor>)"

text \<open>
  The straight condition as the specification words it: some run of at least four
  consecutive entries of the distinct ranks (sorted downwards) spans at most 4, or all of
  A, 2, 3, 4, 5 are present.
\<close>

definition specStraightCondition :: "int list \<Rightarrow> bool" where
  "specStraightCondition sortedRanks =
     (list_ex (\<lambda>i. list_ex (\<lambda>j. i + 4 \<le> j \<and>
                  hd (slice sortedRanks i j) - last (slice sortedRanks i j) \<le> 4)
                [0 ..< length sortedRanks + 1])
        [0 ..< length sortedRanks]
      \<or> (14 \<in> set sortedRanks \<and> 2 \<in> set sortedRanks \<and> 3 \<in> set sortedRanks \<and>
         4 \<in> set sortedRanks \<and> 5 \<in> set sortedRanks))"

section \<open>Concrete snapshots\<close>

text \<open>
  A two-seat table seen by the agent \<open>0xA1\<close>, who sits in seat 0 and holds the turn. The
  status, the agent's own record and the bet to match vary between the examples below.
\<close>

definition exampleMe :: Player where
  "exampleMe =
     \<lparr>account = ''0xA1'', chips = 1000, bet = 0, totalBet = 0, holeCards = [''Ah'', ''Kd''],
      folded = False, allIn = False, role = ''D'', active = True, disconnected = False,
      ready = False\<rparr>"

definition exampleState :: "Status \<Rightarrow> Player \<Rightarrow> real \<Rightarrow> PublicState" where
  "exampleState st me toMatch =
     \<lparr>status = st, players = [''0xA1'' \<mapsto> me], seats = [''0xA1'', ''0xB2''], dealerIndex = 0,
      currentTurn = 0, pot = 30, communityCards = [], currentBet = toMatch, minRaise = 10,
      actionLog = [], winnerInfo = (if st = SHOWDOWN then Some ''0xA1'' else None),
      myAccount = ''0xA1''\<rparr>"

definition exampleEnv :: "Error + PublicState \<Rightarrow> Error + unit \<Rightarrow> Error + PublicState \<Rightarrow> TickEnv" where
  "exampleEnv fetched toggled refetched =
     \<lparr>getPublicStateReply = fetched, toggleReadyReply = toggled,
      getPublicStateReply2 = refetched, actionReply = Inr (), random = 0.875\<rparr>"

section \<open>Properties of the rounding\<close>

lemma roundEven_error: "\<bar>of_int (roundEven y) - y\<bar> \<le> 1 / 2"
  unfolding roundEven_def Let_def by (auto simp: abs_if) linarith+

lemma roundEven_nonneg: "0 \<le> y \<Longrightarrow> 0 \<le> roundEven y"
  unfolding roundEven_def Let_def by (auto simp: abs_if)

lemma pow2_pos: "0 < pow2 e"
  by (simp add: pow2_def)

lemma pow2_eq_powr: "pow2 e = 2 powr (of_int e)"
  by (cases "0 \<le> e") (simp_all add: pow2_def powr_realpow[symmetric] powr_minus divide_inverse)

lemma pow2_mono: "a \<le> b \<Longrightarrow> pow2 a \<le> pow2 b"
  by (simp add: pow2_eq_powr)

lemma double_zero: "double 0 = 0"
  by (simp add: double_def)

lemma double_nonneg: "0 \<le> x \<Longrightarrow> 0 \<le> double x"
  by (auto simp: double_def Let_def sgn_if intro!: mult_nonneg_nonneg roundEven_nonneg
      less_imp_le[OF pow2_pos] divide_nonneg_pos pow2_pos)

lemma exponent_le_0: "x < 2 \<Longrightarrow> exponent x \<le> 0"
proof (cases "1 \<le> x")
  case True
  assume "x < 2"
  with True have "\<lfloor>x\<rfloor> = 1" by linarith
  then show ?thesis using True by (simp add: exponent_def bitlen_alt_def)
next
  case False
  then show ?thesis using bitlen_nonneg [of "\<lceil>1 / x\<rceil> - 1"] by (simp add: exponent_def)
qed

text \<open>Below 2 the doubles are at most \<open>2^-52\<close> apart, so rounding moves by at most half of it.\<close>

lemma double_error_below_2:
  assumes "0 < x" and "x < 2"
  shows "\<bar>double x - x\<bar> \<le> 1 / 2 ^ 53"
proof -
  define s where "s = pow2 (max (exponent \<bar>x\<bar>) (- 1022) - 52)"
  have spos: "0 < s" by (simp add: s_def pow2_pos)
  have "max (exponent \<bar>x\<bar>) (- 1022) - 52 \<le> - 52"
    using exponent_le_0 [of "\<bar>x\<bar>"] assms by simp
  from pow2_mono [OF this] have sle: "s \<le> 1 / 2 ^ 52"
    by (simp add: s_def pow2_def)
  have d: "double x = of_int (roundEven (x / s)) * s"
    using assms by (simp add: double_def Let_def s_def)
  have "double x - x = (of_int (roundEven (x / s)) - x / s) * s"
    using spos by (simp add: d field_simps)
  then have "\<bar>double x - x\<bar> = \<bar>of_int (roundEven (x / s)) - x / s\<bar> * s"
    using spos by (simp add: abs_mult)
  also have "\<dots> \<le> (1 / 2) * s"
    using roundEven_error [of "x / s"] spos by (intro mult_right_mono) simp_all
  also have "\<dots> \<le> (1 / 2) * (1 / 2 ^ 52)"
    using sle by simp
  finally show ?thesis by simp
qed

lemma literal_03: "1 / 4 \<le> double 0.3 \<and> double 0.3 \<le> 1 / 2"
  by code_simp

lemma bluff_lifts:
  assumes "0 \<le> hs" and "hs \<le> 1"
  shows "hs \<le> fadd hs (double 0.3)"
proof -
  have "0 < hs + double 0.3" and "hs + double 0.3 < 2"
    using assms literal_03 by linarith+
  from double_error_below_2 [OF this]
  have "hs + double 0.3 - 1 / 2 ^ 53 \<le> double (hs + double 0.3)"
    by linarith
  moreover have "(1::real) / 2 ^ 53 \<le> 1 / 4" by simp
  ultimately show ?thesis using literal_03 unfolding fadd_def by linarith
qed

lemma pow2_add: "pow2 (a + b) = pow2 a * pow2 b"
  by (simp add: pow2_eq_powr powr_add)

lemma pow2_nat: "0 \<le> e \<Longrightarrow> pow2 e = 2 ^ nat e"
  by (simp add: pow2_def)

lemma pow2_neg: "e \<le> 0 \<Longrightarrow> pow2 e = 1 / 2 ^ nat (- e)"
  by (cases "e = 0") (simp_all add: pow2_def)

lemma exponent_bounds:
  assumes "0 < x"
  shows "pow2 (exponent x) \<le> x \<and> x < pow2 (exponent x + 1)"
proof (cases "1 \<le> x")
  case True
  define n where "n = \<lfloor>x\<rfloor>"
  have n: "0 < n" "of_int n \<le> x" "x < of_int n + 1"
    using True unfolding n_def by linarith+
  define b where "b = bitlen n"
  from bitlen_bounds [OF n(1)] have bb: "2 ^ nat (b - 1) \<le> n" "n < 2 ^ nat b"
    by (simp_all add: b_def)
  have b1: "1 \<le> b" using n(1) by (simp add: b_def bitlen_alt_def)
  have e: "exponent x = b - 1" using True by (simp add: exponent_def n_def b_def)
  have p1: "pow2 (b - 1) = 2 ^ nat (b - 1)" and p2: "pow2 b = 2 ^ nat b"
    using b1 by (simp_all add: pow2_nat)
  have "(2::real) ^ nat (b - 1) \<le> of_int n"
    using bb(1) by (metis of_int_le_iff of_int_numeral of_int_power)
  then have lo: "pow2 (b - 1) \<le> x" using n(2) unfolding p1 by linarith
  have "n + 1 \<le> 2 ^ nat b" using bb(2) by simp
  then have "of_int (n + 1) \<le> (2::real) ^ nat b"
    by (metis of_int_le_iff of_int_numeral of_int_power)
  then have "of_int n + 1 \<le> (2::real) ^ nat b" by simp
  then have hi: "x < pow2 b" using n(3) unfolding p2 by linarith
  show ?thesis using lo hi by (simp add: e)
next
  case False
  define y where "y = 1 / x"
  have y1: "1 < y" using assms False by (simp add: y_def)
  define n where "n = \<lceil>y\<rceil> - 1"
  have n: "0 < n" "of_int n < y" "y \<le> of_int n + 1"
    using y1 unfolding n_def by linarith+
  define b where "b = bitlen n"
  from bitlen_bounds [OF n(1)] have bb: "2 ^ nat (b - 1) \<le> n" "n < 2 ^ nat b"
    by (simp_all add: b_def)
  have b1: "1 \<le> b" using n(1) by (simp add: b_def bitlen_alt_def)
  have e: "exponent x = - b" using False by (simp add: exponent_def n_def b_def y_def)
  have p1: "pow2 (- b + 1) = 1 / 2 ^ nat (b - 1)" and p2: "pow2 (- b) = 1 / 2 ^ nat b"
    using b1 by (simp_all add: pow2_neg)
  have "(2::real) ^ nat (b - 1) \<le> of_int n"
    using bb(1) by (metis of_int_le_iff of_int_numeral of_int_power)
  then have "2 ^ nat (b - 1) < y" using n(2) by linarith
  then have "x * 2 ^ nat (b - 1) < 1"
    using assms by (simp add: y_def field_simps)
  then have hi: "x < pow2 (- b + 1)"
    unfolding p1 by (simp add: field_simps)
  have "n + 1 \<le> 2 ^ nat b" using bb(2) by simp
  then have "of_int (n + 1) \<le> (2::real) ^ nat b"
    by (metis of_int_le_iff of_int_numeral of_int_power)
  then have "of_int n + 1 \<le> (2::real) ^ nat b" by simp
  then have "y \<le> 2 ^ nat b" using n(3) by linarith
  then have "1 \<le> x * 2 ^ nat b"
    using assms by (simp add: y_def field_simps)
  then have lo: "pow2 (- b) \<le> x"
    unfolding p2 by (simp add: field_simps)
  show ?thesis using lo hi by (simp add: e)
qed

lemma pow2_less_cancel: "pow2 a < pow2 b \<Longrightarrow> a < b"
  by (simp add: pow2_eq_powr)

lemma exponent_mono:
  assumes "0 < x" and "x \<le> y"
  shows "exponent x \<le> exponent y"
proof -
  have "pow2 (exponent x) \<le> x" using exponent_bounds [OF assms(1)] by simp
  also have "x \<le> y" by fact
  also have "y < pow2 (exponent y + 1)" using exponent_bounds [of y] assms by simp
  finally show ?thesis using pow2_less_cancel by fastforce
qed

lemma roundEven_ge: "of_int n \<le> y \<Longrightarrow> n \<le> roundEven y"
proof -
  assume "of_int n \<le> y"
  then have "n \<le> \<lfloor>y\<rfloor>" by (simp add: le_floor_iff)
  moreover have "\<lfloor>y\<rfloor> \<le> roundEven y" by (simp add: roundEven_def Let_def)
  ultimately show ?thesis by simp
qed

text \<open>Rounding does not fall below a double that lies below.\<close>

lemma double_ge_double:
  assumes "0 \<le> d" and "double d = d" and "d \<le> x"
  shows "d \<le> double x"
proof (cases "d = 0")
  case True
  then show ?thesis using assms double_nonneg [of x] by simp
next
  case False
  then have dpos: "0 < d" and xpos: "0 < x" using assms by simp_all
  define ed where "ed = max (exponent d) (- 1022)"
  define ex where "ex = max (exponent x) (- 1022)"
  define sd where "sd = pow2 (ed - 52)"
  define sx where "sx = pow2 (ex - 52)"
  have sdpos: "0 < sd" and sxpos: "0 < sx" by (simp_all add: sd_def sx_def pow2_pos)
  have dd: "double d = of_int (roundEven (d / sd)) * sd"
    using dpos by (simp add: double_def Let_def sd_def ed_def)
  have dx: "double x = of_int (roundEven (x / sx)) * sx"
    using xpos by (simp add: double_def Let_def sx_def ex_def)
  have le: "ed \<le> ex"
    using exponent_mono [OF dpos assms(3)] by (simp add: ed_def ex_def)
  show ?thesis
  proof (cases "ed = ex")
    case True
    then have s: "sx = sd" by (simp add: sx_def sd_def)
    have "of_int (roundEven (d / sd)) = d / sd"
      using dd assms(2) sdpos by (simp add: field_simps)
    also have "\<dots> \<le> x / sd" using assms(3) sdpos by (simp add: divide_right_mono)
    finally have "roundEven (d / sd) \<le> roundEven (x / sd)" by (rule roundEven_ge)
    then have "of_int (roundEven (d / sd)) * sd \<le> of_int (roundEven (x / sd)) * sd"
      using sdpos by (simp add: mult_right_mono)
    then show ?thesis using dd dx assms(2) s by simp
  next
    case False
    with le have lt: "ed < ex" by simp
    then have exe: "ex = exponent x" and "exponent d + 1 \<le> ex"
      by (simp_all add: ed_def ex_def max_def split: if_splits)
    then have "d < pow2 ex"
      using exponent_bounds [OF dpos] pow2_mono [of "exponent d + 1" ex] by linarith
    moreover have px: "pow2 ex \<le> x" using exponent_bounds [OF xpos] exe by simp
    have "pow2 ex = pow2 52 * sx"
      using pow2_add [of 52 "ex - 52"] by (simp add: sx_def)
    then have p52: "pow2 ex = 2 ^ 52 * sx" by (simp add: pow2_def)
    have "of_int (2 ^ 52) \<le> x / sx"
      using px p52 sxpos by (simp add: field_simps)
    then have "2 ^ 52 \<le> roundEven (x / sx)" by (rule roundEven_ge)
    then have "(2::real) ^ 52 \<le> of_int (roundEven (x / sx))"
      by (metis of_int_le_iff of_int_numeral of_int_power)
    then have "2 ^ 52 * sx \<le> of_int (roundEven (x / sx)) * sx"
      using sxpos by (simp add: mult_right_mono)
    ultimately show ?thesis using dx p52 by linarith
  qed
qed

lemma plusWhole_ge:
  assumes "0 \<le> x" and "0 \<le> k"
  shows "x \<le> plusWhole x k"
proof (cases "double x = x")
  case True
  have "x \<le> double (x + of_int k)"
    using assms by (intro double_ge_double True) simp_all
  then show ?thesis using True by (simp add: plusWhole_def fadd_def)
next
  case False
  then show ?thesis using assms by (simp add: plusWhole_def)
qed

text \<open>Known values of JavaScript, as a check of \<open>double\<close>.\<close>

lemma double_known_values:
  "double 0.1 * 2 ^ 55 = 3602879701896397 \<and>
   fadd (double 0.1) (double 0.2) * 2 ^ 54 = 5404319552844596 \<and>
   double 0.3 * 2 ^ 54 = 5404319552844595 \<and>
   fadd 0.5 (double 0.3) = double 0.8 \<and>
   fadd (double 0.6) (double 0.3) < double 0.9 \<and>
   fmul 90 (double 0.7) < 63 \<and>
   double (2 ^ 53 + 1) = 2 ^ 53"
  by code_simp

section \<open>Properties of the strategy engine\<close>

subsection \<open>Raise sizing\<close>

lemma calculateRaiseAmount_spec:
  "calculateRaiseAmount cfg p c strength cb = specRaiseTotal cfg strength p c cb"
  by (simp add: calculateRaiseAmount_def specRaiseTotal_def fmul_def Let_def mult.commute)

text \<open>With 90 chips the cap of 70 percent is 62, not 63.\<close>

lemma ninety_chips_cap:
  "decide getDefaultStrategy 0.875 0.75 0 1000 90 0 FLOP = \<lparr>action = RAISE, amount = Some 62\<rparr>"
  by code_simp

text \<open>
  C1, as written, fails. With the default configuration, a draw of 0.125 (a bluff), raw
  strength 0.5, nothing to call, a pot of 1000, 10000 chips and a current bet of 20,
  \<open>decide\<close> raises to 720: the size is computed from the bluff-adjusted strength 0.8. The
  formula over the raw strength gives 645.
\<close>

theorem raise_size_raw_strength_counterexample:
  "action (decide getDefaultStrategy 0.125 0.5 0 1000 10000 20 FLOP) = RAISE \<and>
   amount (decide getDefaultStrategy 0.125 0.5 0 1000 10000 20 FLOP) = Some 720 \<and>
   specRaiseTotal getDefaultStrategy 0.5 1000 10000 20 = 645 \<and>
   amount (decide getDefaultStrategy 0.125 0.5 0 1000 10000 20 FLOP)
     \<noteq> Some (specRaiseTotal getDefaultStrategy 0.5 1000 10000 20)"
  by code_simp

text \<open>
  C1, amended: whenever \<open>decide\<close> returns RAISE, the amount is
  \<open>currentBet + min(floor(0.5 * pot * (1 + aggressiveness * s)), floor(0.7 * chips))\<close>,
  computed in doubles, where \<open>s\<close> is the effective strength of that decision:
  \<open>min(handStrength + 0.3, 1)\<close> when the bluff is drawn and \<open>handStrength\<close> otherwise. So
  the formula over the raw strength holds for the outcome in which no bluff is drawn.
\<close>

theorem decide_raise_amount:
  assumes "action (decide cfg draw hs ca p c cb ph) = RAISE"
  shows "amount (decide cfg draw hs ca p c cb ph)
           = Some (specRaiseTotal cfg (effectiveStrength cfg draw hs) p c cb)
         \<and> (\<not> shouldBluff cfg draw \<longrightarrow>
              amount (decide cfg draw hs ca p c cb ph) = Some (specRaiseTotal cfg hs p c cb))"
  using assms
  by (auto simp: decide_def Let_def calculateRaiseAmount_spec effectiveStrength_def
      split: if_splits)

theorem decide_raise_amount_witness:
  "action (decide getDefaultStrategy 0.875 0.75 0 1000 90 0 FLOP) = RAISE \<and>
   \<not> shouldBluff getDefaultStrategy 0.875 \<and>
   amount (decide getDefaultStrategy 0.875 0.75 0 1000 90 0 FLOP)
     = Some (specRaiseTotal getDefaultStrategy 0.75 1000 90 0) \<and>
   specRaiseTotal getDefaultStrategy 0.75 1000 90 0 = 62"
proof -
  have r: "action (decide getDefaultStrategy 0.875 0.75 0 1000 90 0 FLOP) = RAISE"
    by code_simp
  have nb: "\<not> shouldBluff getDefaultStrategy 0.875"
    by code_simp
  have v: "specRaiseTotal getDefaultStrategy 0.75 1000 90 0 = 62"
    by code_simp
  from decide_raise_amount [OF r] r nb v show ?thesis by blast
qed

subsection \<open>Folding weak hands\<close>

text \<open>
  C6, as written, fails in two ways. With the default configuration and a bluff drawn, a
  hand of strength 0.25 facing a call of 30 into a pot of 100 with 100 chips is called: the
  effective strength 0.55 reaches the call threshold. And without a bluff, a configuration
  whose raise threshold lies below its fold threshold (0.4 and 0.5, which
  \<open>adaptStrategy\<close> can produce) raises with strength 0.45.
\<close>

theorem fold_below_threshold_counterexample:
  "(0.25::real) < foldThreshold getDefaultStrategy \<and>
   \<not> below (potOdds 30 100) (double 0.2) \<and>
   (30::real) \<ge> 0.1 * 100 \<and> (30::real) > 0 \<and>
   action (decide getDefaultStrategy 0.125 0.25 30 100 100 30 FLOP) = CALL \<and>
   double 0.45 < 0.5 \<and>
   action (decide \<lparr>raiseThreshold = double 0.4, callThreshold = double 0.4,
             foldThreshold = 0.5, bluffProbability = double 0.15, aggressiveness = 0.5\<rparr>
             0.875 (double 0.45) 30 100 100 30 FLOP) = RAISE"
  by code_simp

text \<open>
  C6, amended: for every call to \<open>decide\<close> with \<open>callAmount > 0\<close> and \<open>potOdds \<ge> 0.2\<close>
  (that is, not below 0.2), whatever \<open>handStrength\<close> and the size of the call against the
  stack, and for every outcome of the bluff draw, the result is FOLD exactly when the
  effective strength (\<open>min(handStrength + 0.3, 1)\<close> when the bluff is drawn, \<open>handStrength\<close>
  otherwise) is below \<open>raiseThreshold\<close> and, in addition, either is below
  \<open>callThreshold\<close> or the call has neither pot odds below 0.4 nor a size below
  \<open>0.2 * chips\<close>. In particular the result is FOLD, for every draw, whenever the effective
  strength is below both \<open>callThreshold\<close> and \<open>raiseThreshold\<close>.
\<close>

theorem decide_fold_weak:
  assumes "ca > 0" and "\<not> below (potOdds ca p) (double 0.2)"
  shows "action (decide cfg draw hs ca p c cb ph) = FOLD \<longleftrightarrow>
           effectiveStrength cfg draw hs < raiseThreshold cfg \<and>
           (effectiveStrength cfg draw hs < callThreshold cfg \<or>
            (\<not> below (potOdds ca p) (double 0.4) \<and> \<not> ca < fmul c (double 0.2)))"
  using assms by (auto simp: decide_def Let_def)

theorem decide_fold_weak_witness:
  "(30::real) > 0 \<and> \<not> below (potOdds 30 100) (double 0.2) \<and>
   shouldBluff getDefaultStrategy 0.125 \<and>
   effectiveStrength getDefaultStrategy 0.125 0.0625 < raiseThreshold getDefaultStrategy \<and>
   effectiveStrength getDefaultStrategy 0.125 0.0625 < callThreshold getDefaultStrategy \<and>
   action (decide getDefaultStrategy 0.125 0.0625 30 100 100 30 FLOP) = FOLD"
proof -
  have h1: "(30::real) > 0" by simp
  have h2: "\<not> below (potOdds 30 100) (double 0.2)" by code_simp
  have b: "shouldBluff getDefaultStrategy 0.125" by code_simp
  have e1: "effectiveStrength getDefaultStrategy 0.125 0.0625 < raiseThreshold getDefaultStrategy"
    by code_simp
  have e2: "effectiveStrength getDefaultStrategy 0.125 0.0625 < callThreshold getDefaultStrategy"
    by code_simp
  from decide_fold_weak [where cfg = getDefaultStrategy and draw = "0.125" and hs = "0.0625"
         and c = 100 and cb = 30 and ph = FLOP, OF h1 h2] h1 h2 b e1 e2
  show ?thesis by blast
qed

subsection \<open>Free play\<close>

lemma aggressiveness_adaptStrategy:
  "0 \<le> aggressiveness (config e) \<Longrightarrow> 0 \<le> aggressiveness (config (adaptStrategy e))"
  by (simp add: adaptStrategy_def Let_def)

lemma aggressiveness_engineCalls:
  "0 \<le> aggressiveness (config e) \<Longrightarrow> 0 \<le> aggressiveness (config (engineCalls cs e))"
proof (induction cs arbitrary: e)
  case Nil
  then show ?case by simp
next
  case (Cons c cs)
  have "0 \<le> aggressiveness (config (engineCall c e))"
    using Cons.prems
    by (cases c) (simp_all add: recordResult_def Let_def aggressiveness_adaptStrategy)
  then show ?case using Cons.IH by simp
qed

lemma aggressiveness_reachable:
  "0 \<le> aggressiveness (config (engineCalls cs newStrategyEngine))"
  by (rule aggressiveness_engineCalls) (simp add: newStrategyEngine_def getDefaultStrategy_def)

text \<open>
  C7: for every call to \<open>decide\<close> with \<open>callAmount = 0\<close>, \<open>0 \<le> handStrength \<le> 1\<close> and
  \<open>pot\<close>, \<open>chips\<close>, \<open>currentBet\<close> non-negative: if \<open>handStrength \<ge> raiseThreshold\<close> the
  result is RAISE with an amount of at least \<open>currentBet\<close>, whatever the draw; and if the
  effective strength is below \<open>raiseThreshold\<close> the result is CHECK. The configuration is
  taken in its documented range, of which only \<open>aggressiveness \<ge> 0\<close> is used; every
  configuration the engine reaches from its default has it (lemma above).
\<close>

theorem decide_free_play:
  assumes "0 \<le> hs" and "hs \<le> 1" and "0 \<le> p" and "0 \<le> c" and "0 \<le> cb"
    and "0 \<le> aggressiveness cfg"
  shows "(raiseThreshold cfg \<le> hs \<longrightarrow>
            action (decide cfg draw hs 0 p c cb ph) = RAISE \<and>
            (\<exists>amt. amount (decide cfg draw hs 0 p c cb ph) = Some amt \<and> cb \<le> amt)) \<and>
         (effectiveStrength cfg draw hs < raiseThreshold cfg \<longrightarrow>
            decide cfg draw hs 0 p c cb ph = \<lparr>action = CHECK, amount = None\<rparr>)"
proof -
  let ?eff = "effectiveStrength cfg draw hs"
  have eff_ge: "hs \<le> ?eff"
    using assms(2) bluff_lifts [OF assms(1,2)] by (simp add: effectiveStrength_def)
  then have eff_nonneg: "0 \<le> ?eff"
    using assms(1) by linarith
  have "0 \<le> fmul (aggressiveness cfg) ?eff"
    unfolding fmul_def using assms(6) eff_nonneg by (intro double_nonneg mult_nonneg_nonneg)
  then have "0 \<le> fadd 1 (fmul (aggressiveness cfg) ?eff)"
    unfolding fadd_def by (intro double_nonneg) simp
  moreover have "0 \<le> fmul p 0.5"
    unfolding fmul_def using assms(3) by (intro double_nonneg) simp
  ultimately have "0 \<le> fmul (fmul p 0.5) (fadd 1 (fmul (aggressiveness cfg) ?eff))"
    unfolding fmul_def [of "fmul p 0.5"] by (intro double_nonneg mult_nonneg_nonneg)
  then have raise: "0 \<le> \<lfloor>fmul (fmul p 0.5) (fadd 1 (fmul (aggressiveness cfg) ?eff))\<rfloor>"
    by simp
  have "0 \<le> fmul c (double 0.7)"
    unfolding fmul_def using assms(4) by (intro double_nonneg mult_nonneg_nonneg) simp_all
  then have cap: "0 \<le> \<lfloor>fmul c (double 0.7)\<rfloor>"
    by simp
  from raise cap have "cb \<le> calculateRaiseAmount cfg p c ?eff cb"
    unfolding calculateRaiseAmount_def Let_def
    by (intro plusWhole_ge assms(5)) simp
  then show ?thesis using eff_ge
    by (auto simp: decide_def Let_def)
qed

theorem decide_free_play_witness:
  "raiseThreshold getDefaultStrategy \<le> 0.75 \<and>
   action (decide getDefaultStrategy 0.125 0.75 0 100 1000 20 FLOP) = RAISE \<and>
   (\<exists>amt. amount (decide getDefaultStrategy 0.125 0.75 0 100 1000 20 FLOP) = Some amt \<and> 20 \<le> amt) \<and>
   effectiveStrength getDefaultStrategy 0.875 0.25 < raiseThreshold getDefaultStrategy \<and>
   decide getDefaultStrategy 0.875 0.25 0 100 1000 20 FLOP = \<lparr>action = CHECK, amount = None\<rparr>"
proof -
  have a: "0 \<le> aggressiveness getDefaultStrategy"
    by (simp add: getDefaultStrategy_def)
  have rt: "raiseThreshold getDefaultStrategy \<le> 0.75"
    by code_simp
  have low: "effectiveStrength getDefaultStrategy 0.875 0.25 < raiseThreshold getDefaultStrategy"
    by code_simp
  have n1: "(0::real) \<le> 0.75" and n2: "(0.75::real) \<le> 1" and n3: "(0::real) \<le> 0.25"
    and n4: "(0.25::real) \<le> 1" and n5: "(0::real) \<le> 100" and n6: "(0::real) \<le> 1000"
    and n7: "(0::real) \<le> 20"
    by simp_all
  from decide_free_play [where draw = "0.125" and ph = FLOP, OF n1 n2 n5 n6 n7 a]
       decide_free_play [where draw = "0.875" and ph = FLOP, OF n3 n4 n5 n6 n7 a] rt low
  show ?thesis by blast
qed

subsection \<open>Adaptive learning\<close>







section \<open>Properties of the hand evaluator\<close>

text \<open>
  What \<open>checkStraightDraw\<close> tests: the slices start at every index up to \<open>length - 4\<close>
  and take five ranks where five are left, so only the last slice has four.
\<close>

lemma checkStraightDraw_iff:
  "checkStraightDraw sr \<longleftrightarrow>
     4 \<le> length sr \<and> ((\<exists>i < length sr - 3. windowHit sr i) \<or> (14 \<in> set sr \<and> 2 \<in> set sr))"
  by (auto simp: checkStraightDraw_def list_ex_iff)

lemma four_run_above_a_low_rank_is_missed:
  "\<not> checkStraightDraw [10, 9, 8, 7, 2] \<and> specStraightCondition [10, 9, 8, 7, 2]"
  by code_simp

text \<open>
  C4: the straight condition should hold exactly when a window of at least four distinct
  ranks spans at most 4 or the wheel A-2-3-4-5 is present, the wheel needing all five
  ranks. The source tests the wheel, which its comment names as A-2-3-4-5, by the presence
  of an ace and a deuce only. For the cards A 9 6 2 of four suits the distinct ranks are
  14, 9, 6, 2: no window qualifies and there is no wheel, yet \<open>checkStraightDraw\<close> returns
  true, and \<open>evaluate\<close> adds the straight-draw bonus to ace-high (0.4 + 0.1).
\<close>

theorem wheel_test_accepts_ace_deuce:
  "checkStraightDraw [14, 9, 6, 2] \<and> \<not> specStraightCondition [14, 9, 6, 2] \<and>
   evaluate [''Ah'', ''9d''] [''6c'', ''2s''] = 0.5"
  by code_simp

section \<open>Properties of the polling loop\<close>

subsection \<open>Which failures leave the tick\<close>

lemma makeAction_fst: "fst (makeAction reply type amt) = [Submit type amt]"
  by (simp add: makeAction_def split: sum.splits)

lemma makeAction_snd: "snd (makeAction reply type amt) = None"
  by (simp add: makeAction_def split: sum.splits)

lemma autonomousDecision_never_throws: "snd (autonomousDecision a env) = None"
  by (simp add: autonomousDecision_def makeAction_snd Let_def split: option.splits)

lemma autoReady_throws_only_on_toggle:
  "toggleReadyReply env = Inr u \<Longrightarrow> thrown (autoReady a s env) = None"
  by (simp add: autoReady_def toggleReady_def Let_def split: option.splits)

lemma tick_completes_when_toggle_accepted:
  assumes "toggleReadyReply env = Inr u"
  shows "thrown (tick a env) = None"
  using autoReady_throws_only_on_toggle [OF assms]
  by (simp add: tick_def autonomousDecision_never_throws Let_def split: option.splits)

text \<open>
  C5: no combination of collaborator failures should let an exception leave the tick, a
  rejected ready-toggle included. \<open>updateState\<close> and \<open>makeAction\<close> catch the rejection of
  their remote call (so a tick whose toggle is accepted always completes, see above), but
  \<open>toggleReady\<close> does not: on a WAITING snapshot in which the agent is not ready, a
  rejected toggle is thrown out of the timer callback.
\<close>

theorem toggleReady_rejection_escapes:
  "thrown (tick newPokerAgent
     (exampleEnv (Inr (exampleState WAITING exampleMe 0)) (Inl RemoteError)
        (Inr (exampleState WAITING exampleMe 0)))) = Some RemoteError"
  by (simp add: tick_def updateState_def autoReady_def toggleReady_def newPokerAgent_def
      exampleEnv_def exampleState_def exampleMe_def truthyString_def Let_def)

subsection \<open>Recording showdowns\<close>

lemma strategy_updateState: "strategy (updateState reply a) = strategy a"
  by (simp add: updateState_def split: sum.splits)

lemma totalHands_recordResult:
  "totalHands (stats (recordResult won e)) = totalHands (stats e) + 1"
  by (simp add: recordResult_def Let_def)

lemma autoReady_showdown_records:
  assumes "status s = SHOWDOWN" and "truthyString (winnerInfo s)"
  shows "totalHands (stats (strategy (agentAfter (autoReady a s env))))
           = totalHands (stats (strategy a)) + 1"
  using assms
  by (simp add: autoReady_def toggleReady_def strategy_updateState totalHands_recordResult
      Let_def split: option.splits sum.splits)

lemma tick_showdown_records:
  assumes "observesShowdown env"
  shows "totalHands (stats (strategy (agentAfter (tick a env))))
           = totalHands (stats (strategy a)) + 1"
proof -
  from assms obtain s where s: "getPublicStateReply env = Inr s" "status s = SHOWDOWN"
      "truthyString (winnerInfo s)"
    by (auto simp: observesShowdown_def split: sum.splits)
  have "agentAfter (tick a env) = agentAfter (autoReady (a\<lparr>currentState := Some s\<rparr>) s env)"
    using s by (simp add: tick_def updateState_def Let_def split: option.splits)
  then show ?thesis using autoReady_showdown_records [OF s(2,3)] by simp
qed

lemma poll_showdown_counts_ticks:
  "list_all observesShowdown envs \<Longrightarrow>
     totalHands (stats (strategy (poll a envs))) = totalHands (stats (strategy a)) + length envs"
  by (induction envs arbitrary: a) (simp_all add: tick_showdown_records)

text \<open>
  C2: over a run of consecutive ticks that all see the same showdown, \<open>recordResult\<close>
  should run once, so that \<open>totalHands\<close>, the count of hands, and one of \<open>wins\<close> and
  \<open>losses\<close> grow by 1. The callback keeps no mark of a showdown already recorded: it
  records on every such tick (the lemma above). Here the agent sees the showdown it won
  on two consecutive ticks, toggling ready on the first, and ends with two hands and two
  wins.
\<close>

theorem showdown_recorded_on_every_tick:
  "totalHands (stats (strategy (poll newPokerAgent
     [exampleEnv (Inr (exampleState SHOWDOWN exampleMe 0)) (Inr ())
        (Inr (exampleState SHOWDOWN (exampleMe\<lparr>ready := True\<rparr>) 0)),
      exampleEnv (Inr (exampleState SHOWDOWN (exampleMe\<lparr>ready := True\<rparr>) 0)) (Inr ())
        (Inr (exampleState SHOWDOWN (exampleMe\<lparr>ready := True\<rparr>) 0))]))) = 2 \<and>
   wins (stats (strategy (poll newPokerAgent
     [exampleEnv (Inr (exampleState SHOWDOWN exampleMe 0)) (Inr ())
        (Inr (exampleState SHOWDOWN (exampleMe\<lparr>ready := True\<rparr>) 0)),
      exampleEnv (Inr (exampleState SHOWDOWN (exampleMe\<lparr>ready := True\<rparr>) 0)) (Inr ())
        (Inr (exampleState SHOWDOWN (exampleMe\<lparr>ready := True\<rparr>) 0))]))) = 2"
  by (simp add: tick_def updateState_def autoReady_def toggleReady_def newPokerAgent_def
      newStrategyEngine_def recordResult_def
      exampleEnv_def exampleState_def exampleMe_def truthyString_def Let_def)

subsection \<open>Failed fetches\<close>

text \<open>
  What a tick does when its fetch fails: nothing if no snapshot was ever fetched, and
  otherwise all that it would do had the retained snapshot been fetched again.
\<close>

lemma tick_on_failed_fetch:
  assumes "getPublicStateReply env = Inl e"
  shows "tick a env =
           (case currentState a of
              None \<Rightarrow> \<lparr>agentAfter = a, trace = [], thrown = None\<rparr>
            | Some s \<Rightarrow> tick a (env\<lparr>getPublicStateReply := Inr s\<rparr>))"
proof (cases "currentState a")
  case None
  then show ?thesis using assms by (simp add: tick_def updateState_def)
next
  case (Some s)
  let ?env = "env\<lparr>getPublicStateReply := Inr s\<rparr>"
  have kept: "updateState (getPublicStateReply env) a = a"
    using assms by (simp add: updateState_def)
  have same: "updateState (getPublicStateReply ?env) a = a"
    using Some by (cases a) (simp add: updateState_def)
  have ready: "autoReady b s ?env = autoReady b s env" for b
    by (simp add: autoReady_def Let_def split: option.splits)
  have dec: "autonomousDecision b ?env = autonomousDecision b env" for b
    by (simp add: autonomousDecision_def Let_def split: option.splits)
  have "tick a ?env = tick a env"
    unfolding tick_def kept same by (simp add: Some ready dec Let_def split: option.splits)
  then show ?thesis using Some by simp
qed

lemma evaluate_ace_king: "evaluate [''Ah'', ''Kd''] [] = double 0.4"
  by code_simp

lemma decide_ace_king_free:
  "decide getDefaultStrategy (7 / 8) (double (2 / 5)) 0 30 1000 0 PREFLOP
     = \<lparr>action = CHECK, amount = None\<rparr>"
  by code_simp

text \<open>
  C3: on a tick whose fetch fails the controller should do nothing, and never decide from
  a snapshot kept from an earlier tick. \<open>updateState\<close> swallows the rejection (its comment:
  no state yet) and the callback only returns early when no snapshot is held, so after one
  successful fetch a failed fetch leaves the old snapshot in place and the tick runs on
  it. With a retained PREFLOP snapshot in which the agent has the turn, the tick of a
  failed fetch evaluates the cards, decides and submits CHECK; with a retained WAITING
  snapshot in which the agent is not ready, it sends the ready toggle again.
\<close>

theorem failed_fetch_acts_on_retained_snapshot:
  "getPublicStateReply (exampleEnv (Inl RemoteError) (Inr ()) (Inl RemoteError))
     = Inl RemoteError \<and>
   trace (tick (newPokerAgent\<lparr>currentState := Some (exampleState PREFLOP exampleMe 0)\<rparr>)
            (exampleEnv (Inl RemoteError) (Inr ()) (Inl RemoteError)))
     = [Evaluate, Decide, Submit CHECK None] \<and>
   trace (tick (newPokerAgent\<lparr>currentState := Some (exampleState WAITING exampleMe 0)\<rparr>)
            (exampleEnv (Inl RemoteError) (Inr ()) (Inl RemoteError)))
     = [ToggleReady]"
  by (simp add: tick_def updateState_def autonomousDecision_def makeAction_def
      autoReady_def toggleReady_def truthyString_def
      newPokerAgent_def newStrategyEngine_def seatAt_def fsub_def double_zero
      exampleEnv_def exampleState_def exampleMe_def Let_def evaluate_ace_king
      decide_ace_king_free truthyNumber_def)

subsection \<open>Hidden hole cards\<close>

text \<open>
  C9: on a betting-street tick where the agent has the turn, is neither folded nor all-in
  and holds a hidden card \<open>??\<close>, the tick's only step is to submit CHECK when
  \<open>currentBet - bet = 0\<close> and FOLD otherwise: neither \<open>evaluate\<close> nor \<open>decide\<close> is called,
  whatever the strategy configuration.
\<close>

theorem hidden_cards_check_or_fold:
  assumes "currentState (updateState (getPublicStateReply env) a) = Some s"
    and "status s \<in> {PREFLOP, FLOP, TURN, RIVER}"
    and "seatAt (seats s) (currentTurn s) = Some (myAccount s)"
    and "players s (myAccount s) = Some me"
    and "\<not> folded me" and "\<not> allIn me"
    and "''??'' \<in> set (holeCards me)"
  shows "trace (tick a env) = [Submit (if currentBet s - bet me = 0 then CHECK else FOLD) None]
         \<and> thrown (tick a env) = None"
proof -
  have h: "list_ex (\<lambda>card. card = ''??'') (holeCards me)"
    using assms(7) by (auto simp: list_ex_iff)
  show ?thesis using assms(1-6) h
    by (auto simp: tick_def autonomousDecision_def makeAction_def Let_def split: sum.splits)
qed

theorem hidden_cards_check_or_fold_witness:
  "currentState (updateState
      (getPublicStateReply
         (exampleEnv (Inr (exampleState FLOP (exampleMe\<lparr>holeCards := [''??'', ''??'']\<rparr>) 10))
            (Inr ()) (Inl RemoteError)))
      newPokerAgent)
     = Some (exampleState FLOP (exampleMe\<lparr>holeCards := [''??'', ''??'']\<rparr>) 10) \<and>
   status (exampleState FLOP (exampleMe\<lparr>holeCards := [''??'', ''??'']\<rparr>) 10)
     \<in> {PREFLOP, FLOP, TURN, RIVER} \<and>
   \<not> folded (exampleMe\<lparr>holeCards := [''??'', ''??'']\<rparr>) \<and>
   \<not> allIn (exampleMe\<lparr>holeCards := [''??'', ''??'']\<rparr>) \<and>
   ''??'' \<in> set (holeCards (exampleMe\<lparr>holeCards := [''??'', ''??'']\<rparr>)) \<and>
   trace (tick newPokerAgent
            (exampleEnv (Inr (exampleState FLOP (exampleMe\<lparr>holeCards := [''??'', ''??'']\<rparr>) 10))
               (Inr ()) (Inl RemoteError)))
     = [Submit FOLD None]"
proof -
  let ?me = "exampleMe\<lparr>holeCards := [''??'', ''??'']\<rparr>"
  let ?s = "exampleState FLOP ?me 10"
  let ?env = "exampleEnv (Inr ?s) (Inr ()) (Inl RemoteError)"
  have h1: "currentState (updateState (getPublicStateReply ?env) newPokerAgent) = Some ?s"
    by (simp add: updateState_def exampleEnv_def)
  have h2: "status ?s \<in> {PREFLOP, FLOP, TURN, RIVER}"
    by (simp add: exampleState_def)
  have h3: "seatAt (seats ?s) (currentTurn ?s) = Some (myAccount ?s)"
    by (simp add: exampleState_def seatAt_def)
  have h4: "players ?s (myAccount ?s) = Some ?me"
    by (simp add: exampleState_def)
  have h5: "\<not> folded ?me" and h6: "\<not> allIn ?me"
    by (simp_all add: exampleMe_def)
  have h7: "''??'' \<in> set (holeCards ?me)"
    by simp
  have owed: "currentBet ?s - bet ?me \<noteq> 0"
    by (simp add: exampleState_def exampleMe_def)
  from hidden_cards_check_or_fold [OF h1 h2 h3 h4 h5 h6 h7] owed
  have "trace (tick newPokerAgent ?env) = [Submit FOLD None]"
    by simp
  with h1 h2 h5 h6 h7 show ?thesis by blast
qed

subsection \<open>No all-in\<close>

text \<open>
  C10: for every input and every draw, \<open>decide\<close> returns one of FOLD, CHECK, CALL and
  RAISE, never ALL_IN, whatever the call amount and the stack; and no tick of the
  controller submits an ALL_IN action.
\<close>

theorem never_all_in:
  "action (decide cfg draw hs ca p c cb ph) \<in> {FOLD, CHECK, CALL, RAISE} \<and>
   action (decide cfg draw hs ca p c cb ph) \<noteq> ALL_IN \<and>
   Submit ALL_IN amt \<notin> set (trace (tick a env))"
proof -
  have d: "action (decide cfg draw hs ca p c cb ph) \<noteq> ALL_IN" for cfg draw hs ca p c cb ph
    by (simp add: decide_def Let_def)
  have "Submit ALL_IN amt \<notin> set (fst (autonomousDecision b env))" for b
    using d d [THEN not_sym]
    by (auto simp: autonomousDecision_def makeAction_fst Let_def split: option.splits)
  moreover have "Submit ALL_IN amt \<notin> set (trace (autoReady b s env))" for b s
    by (auto simp: autoReady_def toggleReady_def Let_def split: option.splits sum.splits)
  ultimately have t: "Submit ALL_IN amt \<notin> set (trace (tick a env))"
    by (auto simp: tick_def Let_def split: option.splits)
  have "action (decide cfg draw hs ca p c cb ph) \<in> {FOLD, CHECK, CALL, RAISE}"
    using d [of cfg draw hs ca p c cb ph]
    by (cases "action (decide cfg draw hs ca p c cb ph)") simp_all
  with d t show ?thesis by blast
qed


end
